theory Spec2Isabelle
  imports Main
begin

section \<open>Errors and results\<close>

text \<open>
  Every \<^verbatim>\<open>errors.New\<close> of the two Go files is one constructor; \<open>error_message\<close>
  gives its literal text. A Go function returning \<^verbatim>\<open>(T, error)\<close> is modelled with the
  result type \<open>error + T\<close>: \<open>Inl e\<close> is the pair of the zero value and the error \<open>e\<close>,
  \<open>Inr v\<close> is \<^verbatim>\<open>(v, nil)\<close>. A run-time panic of an index or slice expression that is
  out of range is not a returned error in Go; the model keeps it apart as the
  constructor \<open>IndexOutOfRange\<close>, which no \<^verbatim>\<open>errors.New\<close> produces.
\<close>

datatype error =
    SegmentEmptyRestNotZero
  | MshSegmentIndexNotOne
  | MshField1RestNotZero
  | FieldWithoutSegment
  | RepetitionWithoutField
  | FieldWithoutRepetition
  | ComponentWithoutField
  | SubcomponentWithoutComponent
  | MustBeginWithMSH
  | MessageTooShort
  | MissingComponentSeparator
  | MissingRepetitionSeparator
  | MissingEscapeCharacter
  | MissingSubcomponentSeparator
  | UnexpectedExtraSeparators
  | SeparatorsNotUnique
  | InvalidPathFormat
  | SegmentNameLength
  | SegmentNameFirstChar
  | SegmentNameNotAlnum
  | IndexOutOfRange

fun error_message :: "error \<Rightarrow> string" where
  "error_message SegmentEmptyRestNotZero = ''if Segment is empty, the rest of the path must be empty or 0''"
| "error_message MshSegmentIndexNotOne = ''if Segment is MSH, SegmentIndex must be 1''"
| "error_message MshField1RestNotZero = ''if Segment is MSH and Field is 1, the rest of the path must be empty or 0''"
| "error_message FieldWithoutSegment = ''if Field is set, Segment must be set''"
| "error_message RepetitionWithoutField = ''if RepetitionIndex is set, Field must be set''"
| "error_message FieldWithoutRepetition = ''if Field is set, RepetitionIndex must be at least 1''"
| "error_message ComponentWithoutField = ''if Component is set, Field must be set''"
| "error_message SubcomponentWithoutComponent = ''if Subcomponent is set, Component must be set''"
| "error_message MustBeginWithMSH = ''invalid HL7 message: must begin with MSH''"
| "error_message MessageTooShort = ''invalid HL7 message: message too short to contain separators and meaningful data''"
| "error_message MissingComponentSeparator = ''missing component separator''"
| "error_message MissingRepetitionSeparator = ''missing repetition separator''"
| "error_message MissingEscapeCharacter = ''missing escape character''"
| "error_message MissingSubcomponentSeparator = ''missing subcomponent separator''"
| "error_message UnexpectedExtraSeparators = ''unexpected extra separators''"
| "error_message SeparatorsNotUnique = ''separators must be unique''"
| "error_message InvalidPathFormat = ''invalid path format''"
| "error_message SegmentNameLength = ''segment name must be 3 characters''"
| "error_message SegmentNameFirstChar = ''segment name must begin with an uppercase letter''"
| "error_message SegmentNameNotAlnum = ''segment name must be uppercase alphanumeric''"
| "error_message IndexOutOfRange = ''runtime error: index out of range''"

text \<open>The three kinds of returned error the two functions distinguish.\<close>

definition is_validation_error :: "error \<Rightarrow> bool" where
  "is_validation_error e \<longleftrightarrow> e \<in> {SegmentEmptyRestNotZero, MshSegmentIndexNotOne,
     MshField1RestNotZero, FieldWithoutSegment, RepetitionWithoutField,
     FieldWithoutRepetition, ComponentWithoutField, SubcomponentWithoutComponent}"

definition is_message_structure_error :: "error \<Rightarrow> bool" where
  "is_message_structure_error e \<longleftrightarrow> e \<in> {MustBeginWithMSH, MessageTooShort,
     MissingComponentSeparator, MissingRepetitionSeparator, MissingEscapeCharacter,
     MissingSubcomponentSeparator, UnexpectedExtraSeparators, SeparatorsNotUnique}"

definition is_segment_name_error :: "error \<Rightarrow> bool" where
  "is_segment_name_error e \<longleftrightarrow> e \<in> {SegmentNameLength, SegmentNameFirstChar, SegmentNameNotAlnum}"

section \<open>The path descriptor and its validation (parseHL7Path.go)\<close>

text \<open>
  The struct \<^verbatim>\<open>HL7Path\<close>. Its five \<^verbatim>\<open>int\<close> fields are signed in Go, so the record
  holds \<open>int\<close>: nothing in the type excludes a negative value. The only arithmetic on
  them is \<^verbatim>\<open>x-1\<close> used as an index; for the least 64-bit value that wraps to the
  greatest one, which is out of range of every slice exactly as the negative number
  \<open>x - 1\<close> is, so unbounded integers give the same outcome.
\<close>

record HL7Path =
  Segment :: string
  SegmentIndex :: int
  Field :: int
  RepetitionIndex :: int
  Component :: int
  Subcomponent :: int

definition zero_path :: HL7Path where
  "zero_path = \<lparr>Segment = [], SegmentIndex = 0, Field = 0, RepetitionIndex = 0,
     Component = 0, Subcomponent = 0\<rparr>"

text \<open>\<^verbatim>\<open>func (p HL7Path) Validate() error\<close>; \<open>None\<close> is \<^verbatim>\<open>nil\<close>.\<close>

definition Validate :: "HL7Path \<Rightarrow> error option" where
  "Validate p =
    (if Segment p = [] then
       (if SegmentIndex p \<noteq> 0 \<or> Field p \<noteq> 0 \<or> RepetitionIndex p \<noteq> 0 \<or> Component p \<noteq> 0
           \<or> Subcomponent p \<noteq> 0
        then Some SegmentEmptyRestNotZero else None)
     else if Segment p = ''MSH'' \<and> SegmentIndex p \<noteq> 1 then Some MshSegmentIndexNotOne
     else if Segment p = ''MSH'' \<and> Field p = 1 \<and> (Component p \<noteq> 0 \<or> Subcomponent p \<noteq> 0)
       then Some MshField1RestNotZero
     else if Field p \<noteq> 0 \<and> Segment p = [] then Some FieldWithoutSegment
     else if RepetitionIndex p \<noteq> 0 \<and> Field p = 0 then Some RepetitionWithoutField
     else if Field p \<noteq> 0 \<and> RepetitionIndex p = 0 then Some FieldWithoutRepetition
     else if Component p \<noteq> 0 \<and> Field p = 0 then Some ComponentWithoutField
     else if Subcomponent p \<noteq> 0 \<and> Component p = 0 then Some SubcomponentWithoutComponent
     else None)"

section \<open>Go strings\<close>

text \<open>
  A Go string is a sequence of bytes, here a \<open>char list\<close>. \<open>index_at\<close> is the index
  expression \<^verbatim>\<open>xs[i]\<close> and \<open>slice\<close> the slice expression \<^verbatim>\<open>xs[lo:hi]\<close>, both with
  the panic Go raises out of range.
\<close>

definition index_at :: "'a list \<Rightarrow> int \<Rightarrow> error + 'a" where
  "index_at xs i = (if 0 \<le> i \<and> i < int (length xs) then Inr (xs ! nat i) else Inl IndexOutOfRange)"

definition slice :: "'a list \<Rightarrow> nat \<Rightarrow> nat \<Rightarrow> error + 'a list" where
  "slice xs lo hi = (if lo \<le> hi \<and> hi \<le> length xs then Inr (take (hi - lo) (drop lo xs))
                     else Inl IndexOutOfRange)"

text \<open>
  The conversion \<^verbatim>\<open>string(b)\<close> of a byte \<open>b\<close>: Go converts the integer to the UTF-8
  encoding of that code point, one byte below 128 and two bytes from 128 on.
\<close>

definition string_of_byte :: "char \<Rightarrow> string" where
  "string_of_byte b =
    (if (of_char b :: nat) < 128 then [b]
     else [char_of (192 + (of_char b :: nat) div 64), char_of (128 + (of_char b :: nat) mod 64)])"

text \<open>\<^verbatim>\<open>strings.HasPrefix\<close>: \<^verbatim>\<open>len(s) >= len(prefix) && s[:len(prefix)] == prefix\<close>.\<close>

definition HasPrefix :: "string \<Rightarrow> string \<Rightarrow> bool" where
  "HasPrefix s pre \<longleftrightarrow> length pre \<le> length s \<and> take (length pre) s = pre"

text \<open>
  \<^verbatim>\<open>strings.Split(s, sep)\<close> and \<^verbatim>\<open>strings.ReplaceAll(s, old, new)\<close> for a non-empty
  \<open>sep\<close> and \<open>old\<close>: both work on the leftmost occurrences, which do not overlap.
  \<open>genSplit sep acc s\<close> carries the bytes of the piece being read, reversed, in \<open>acc\<close>.
  Every call in this program passes a non-empty separator (a line terminator, or
  \<open>string_of_byte\<close> of a delimiter); what Go does with an empty one (it works rune by
  rune) is not modelled.
\<close>

function genSplit :: "string \<Rightarrow> string \<Rightarrow> string \<Rightarrow> string list" where
  "genSplit sep acc [] = [rev acc]"
| "genSplit sep acc (c # s) =
    (if sep \<noteq> [] \<and> HasPrefix (c # s) sep
     then rev acc # genSplit sep [] (drop (length sep) (c # s))
     else genSplit sep (c # acc) s)"
  by pat_completeness auto
termination
  by (relation "measure (\<lambda>(sep, acc, s). length s)") auto

definition Split :: "string \<Rightarrow> string \<Rightarrow> string list" where
  "Split s sep = genSplit sep [] s"

function ReplaceAll :: "string \<Rightarrow> string \<Rightarrow> string \<Rightarrow> string" where
  "ReplaceAll [] old new = []"
| "ReplaceAll (c # s) old new =
    (if old \<noteq> [] \<and> HasPrefix (c # s) old
     then new @ ReplaceAll (drop (length old) (c # s)) old new
     else c # ReplaceAll s old new)"
  by pat_completeness auto
termination
  by (relation "measure (\<lambda>(s, old, new). length s)") auto

section \<open>Segmentation (splitByAnyOf)\<close>

text \<open>
  \<^verbatim>\<open>slices.SortFunc(separators, func(a, b string) int { return len(b) - len(a) })\<close>
  orders the separators by decreasing length. For a slice of at most twelve elements
  the Go library runs an insertion sort, which moves each element left past the
  strictly shorter ones only; \<open>sortByLenDesc\<close> is that sort. The only call passes three
  separators.
\<close>

fun insertByLenDesc :: "string \<Rightarrow> string list \<Rightarrow> string list" where
  "insertByLenDesc x [] = [x]"
| "insertByLenDesc x (y # ys) =
    (if length y < length x then x # y # ys else y # insertByLenDesc x ys)"

definition sortByLenDesc :: "string list \<Rightarrow> string list" where
  "sortByLenDesc xs = foldl (\<lambda>sorted x. insertByLenDesc x sorted) [] xs"

text \<open>
  \<^verbatim>\<open>func splitByAnyOf(s string, separators []string) []string\<close>: every separator but
  the first of the sorted slice is replaced, in order, by the first one, and the text
  is split on the first one.
\<close>

definition splitByAnyOf :: "string \<Rightarrow> string list \<Rightarrow> string list" where
  "splitByAnyOf s separators =
    (case sortByLenDesc separators of
       [] \<Rightarrow> [s]
     | sep0 # others \<Rightarrow> Split (foldl (\<lambda>t sep. ReplaceAll t sep sep0) s others) sep0)"

text \<open>The separators of the call in \<^verbatim>\<open>AbstractHL7\<close>: CR LF, CR, LF.\<close>

definition CR :: char where "CR = CHR 0x0D"
definition LF :: char where "LF = CHR 0x0A"

definition line_terminators :: "string list" where
  "line_terminators = [[CR, LF], [CR], [LF]]"

section \<open>The abstraction engine (AbstractHL7)\<close>

text \<open>
  The five delimiters read from the seven bytes after \<^verbatim>\<open>MSH\<close>, the local variables
  \<^verbatim>\<open>fieldSeparator\<close> ... \<^verbatim>\<open>subcomponentSeparator\<close> of the function.
\<close>

record DelimiterSet =
  fieldSeparator :: char
  componentSeparator :: char
  repetitionSeparator :: char
  escapeCharacter :: char
  subcomponentSeparator :: char

text \<open>
  The loop over \<^verbatim>\<open>separatorsSet\<close> with the map \<^verbatim>\<open>seen\<close>: \<open>True\<close> when it returns
  the error "separators must be unique".
\<close>

fun seenTwice :: "char list \<Rightarrow> (char \<Rightarrow> bool) \<Rightarrow> bool" where
  "seenTwice [] seen = False"
| "seenTwice (sep # rest) seen = (if seen sep then True else seenTwice rest (seen(sep := True)))"

text \<open>
  The checks on \<^verbatim>\<open>separators := message[3:10]\<close> that follow the MSH-1 shortcut, in
  the order of the code: the four comparisons with the field separator, the closing
  pair \<^verbatim>\<open>separators[5]\<close>, \<^verbatim>\<open>separators[6]\<close>, and uniqueness.
\<close>

definition checkSeparators :: "string \<Rightarrow> char \<Rightarrow> error + DelimiterSet" where
  "checkSeparators separators fs =
    (case index_at separators 1 of Inl e \<Rightarrow> Inl e | Inr cs \<Rightarrow>
     if cs = fs then Inl MissingComponentSeparator else
     (case index_at separators 2 of Inl e \<Rightarrow> Inl e | Inr rs \<Rightarrow>
     if rs = fs then Inl MissingRepetitionSeparator else
     (case index_at separators 3 of Inl e \<Rightarrow> Inl e | Inr ec \<Rightarrow>
     if ec = fs then Inl MissingEscapeCharacter else
     (case index_at separators 4 of Inl e \<Rightarrow> Inl e | Inr ss \<Rightarrow>
     if ss = fs then Inl MissingSubcomponentSeparator else
     (case index_at separators 5 of Inl e \<Rightarrow> Inl e | Inr s5 \<Rightarrow>
     (case index_at separators 6 of Inl e \<Rightarrow> Inl e | Inr s6 \<Rightarrow>
     if s5 \<noteq> fs \<and> s6 \<noteq> fs then Inl UnexpectedExtraSeparators else
     if seenTwice [fs, cs, rs, ec, ss] (\<lambda>_. False) then Inl SeparatorsNotUnique else
     Inr \<lparr>fieldSeparator = fs, componentSeparator = cs, repetitionSeparator = rs,
          escapeCharacter = ec, subcomponentSeparator = ss\<rparr>))))))"

text \<open>
  The field list of the target segment: \<^verbatim>\<open>strings.Split\<close> on the field separator
  and, when the path names \<^verbatim>\<open>MSH\<close>, the field separator itself put in at index 1 by
  \<^verbatim>\<open>append(fields[:1], append([]string{string(fieldSeparator)}, fields[1:]...)...)\<close>.
  The slice \<^verbatim>\<open>fields[:1]\<close> panics on an empty list.
\<close>

definition fieldsOf :: "string \<Rightarrow> HL7Path \<Rightarrow> DelimiterSet \<Rightarrow> error + string list" where
  "fieldsOf segment p d =
    (let fieldList = Split segment (string_of_byte (fieldSeparator d)) in
     if Segment p = ''MSH'' then
       (case slice fieldList 0 1 of Inl e \<Rightarrow> Inl e | Inr first \<Rightarrow>
        (case slice fieldList 1 (length fieldList) of Inl e \<Rightarrow> Inl e | Inr others \<Rightarrow>
         Inr (first @ ([string_of_byte (fieldSeparator d)] @ others))))
     else Inr fieldList)"

text \<open>The repetition list of a field: not split when the path is MSH field 2.\<close>

definition repetitionsOf :: "string \<Rightarrow> HL7Path \<Rightarrow> DelimiterSet \<Rightarrow> string list" where
  "repetitionsOf field p d =
    (if \<not> (Segment p = ''MSH'' \<and> Field p = 2)
     then Split field (string_of_byte (repetitionSeparator d)) else [field])"

text \<open>
  The body of the loop once \<^verbatim>\<open>segmentCount == path.SegmentIndex\<close>: every branch
  returns (or panics), so the loop never goes on after it.
\<close>

definition extractFrom :: "string \<Rightarrow> HL7Path \<Rightarrow> DelimiterSet \<Rightarrow> error + string" where
  "extractFrom segment p d =
    (if Field p = 0 then Inr segment else
     (case fieldsOf segment p d of Inl e \<Rightarrow> Inl e | Inr fieldList \<Rightarrow>
     if Field p \<ge> int (length fieldList) then Inr [] else
     (case index_at fieldList (Field p) of Inl e \<Rightarrow> Inl e | Inr field \<Rightarrow>
     let repetitions = repetitionsOf field p d in
     if RepetitionIndex p > int (length repetitions) then Inr [] else
     (case index_at repetitions (RepetitionIndex p - 1) of Inl e \<Rightarrow> Inl e | Inr repetition \<Rightarrow>
     if Component p = 0 then Inr repetition else
     let components = Split repetition (string_of_byte (componentSeparator d)) in
     if Component p > int (length components) then Inr [] else
     (case index_at components (Component p - 1) of Inl e \<Rightarrow> Inl e | Inr component \<Rightarrow>
     if Subcomponent p = 0 then Inr component else
     let subcomponents = Split component (string_of_byte (subcomponentSeparator d)) in
     if Subcomponent p > int (length subcomponents) then Inr [] else
     index_at subcomponents (Subcomponent p - 1))))))"

text \<open>
  The loop \<^verbatim>\<open>for _, segment := range segments\<close> with the counter \<^verbatim>\<open>segmentCount\<close>;
  falling off the end is \<^verbatim>\<open>return "", nil\<close>. The counter is at most the number of
  segments, so it never leaves the range of a machine integer.
\<close>

fun scanSegments :: "string list \<Rightarrow> int \<Rightarrow> HL7Path \<Rightarrow> DelimiterSet \<Rightarrow> error + string" where
  "scanSegments [] segmentCount p d = Inr []"
| "scanSegments (segment # rest) segmentCount p d =
    (if HasPrefix segment (Segment p) then
       (if segmentCount + 1 = SegmentIndex p then extractFrom segment p d
        else scanSegments rest (segmentCount + 1) p d)
     else scanSegments rest segmentCount p d)"

text \<open>\<^verbatim>\<open>func AbstractHL7(message string, path HL7Path) (string, error)\<close>.\<close>

definition AbstractHL7 :: "string \<Rightarrow> HL7Path \<Rightarrow> error + string" where
  "AbstractHL7 message p =
    (case Validate p of Some e \<Rightarrow> Inl e | None \<Rightarrow>
     if p = zero_path then Inr message else
     if length message < 3 then Inl MustBeginWithMSH else
     (case slice message 0 3 of Inl e \<Rightarrow> Inl e | Inr start \<Rightarrow>
     if start \<noteq> ''MSH'' then Inl MustBeginWithMSH else
     if length message < 10 then Inl MessageTooShort else
     (case slice message 3 10 of Inl e \<Rightarrow> Inl e | Inr separators \<Rightarrow>
     (case index_at separators 0 of Inl e \<Rightarrow> Inl e | Inr fs \<Rightarrow>
     if Segment p = ''MSH'' \<and> Field p = 1 then Inr (string_of_byte fs) else
     (case checkSeparators separators fs of Inl e \<Rightarrow> Inl e | Inr d \<Rightarrow>
     scanSegments (splitByAnyOf message line_terminators) 0 p d)))))"

section \<open>The path parser (ParsePath)\<close>

definition is_upper :: "char \<Rightarrow> bool" where
  "is_upper c \<longleftrightarrow> (65 :: nat) \<le> of_char c \<and> (of_char c :: nat) \<le> 90"

definition is_digit :: "char \<Rightarrow> bool" where
  "is_digit c \<longleftrightarrow> (48 :: nat) \<le> of_char c \<and> (of_char c :: nat) \<le> 57"

text \<open>
  \<^verbatim>\<open>func parseSegmentNameOrError(s string) (string, error)\<close>. The Go loop ranges over
  the runes of \<open>s\<close> with their byte offsets; a rune outside ASCII starts with a byte
  from 128 on, which fails the same test at the same offset, so the loop is modelled
  over the bytes. \<open>segmentNameLoop i\<close> is the loop from offset \<open>i\<close>.
\<close>

fun segmentNameLoop :: "nat \<Rightarrow> string \<Rightarrow> error option" where
  "segmentNameLoop i [] = None"
| "segmentNameLoop i (c # cs) =
    (if i = 0 then
       (if \<not> is_upper c then Some SegmentNameFirstChar else segmentNameLoop (i + 1) cs)
     else if \<not> is_upper c \<and> \<not> is_digit c then Some SegmentNameNotAlnum
     else segmentNameLoop (i + 1) cs)"

definition parseSegmentNameOrError :: "string \<Rightarrow> error + string" where
  "parseSegmentNameOrError s =
    (if length s \<noteq> 3 then Inl SegmentNameLength
     else case segmentNameLoop 0 s of Some e \<Rightarrow> Inl e | None \<Rightarrow> Inr s)"

text \<open>
  \<^verbatim>\<open>func parseIntOrDefault(s string, defaultVal int) int\<close>. \<^verbatim>\<open>fmt.Sscanf(s, "%d", &res)\<close>
  reads a run of decimal digits and fails when its value does not fit the 64-bit
  \<^verbatim>\<open>int\<close>, that is when it exceeds \<open>2^63 - 1\<close>; every failure gives the default.
  \<open>decimal\<close> is the value of a digit string. The function is modelled on the texts
  \<^verbatim>\<open>ParsePath\<close> passes to it, which are empty or all digits (the capture groups
  \<^verbatim>\<open>(\d+)\<close>); on any other text the model answers with the default, although
  \<^verbatim>\<open>Sscanf\<close> would also accept a sign or leading blanks.
\<close>

definition decimal :: "string \<Rightarrow> int" where
  "decimal s = foldl (\<lambda>v c. 10 * v + (int (of_char c) - 48)) 0 s"

definition maxInt :: int where
  "maxInt = 2 ^ 63 - 1"

definition parseIntOrDefault :: "string \<Rightarrow> int \<Rightarrow> int" where
  "parseIntOrDefault s defaultVal =
    (if s = [] then defaultVal
     else if list_all is_digit s \<and> decimal s \<le> maxInt then decimal s
     else defaultVal)"

text \<open>
  The regular expression of \<^verbatim>\<open>ParsePath\<close>,
  \<^verbatim>\<open>^([A-Z][A-Z0-9]{2})(?:\[(\d+)\])?(?:[-\.](\d+)(?:\[(\d+)\])?(?:[-\.](\d+)(?:[-\.](\d+))?)?)?$\<close>,
  as a recogniser that returns the six capture groups, a group that took no part in
  the match being the empty string as in \<^verbatim>\<open>FindStringSubmatch\<close>. The expression is
  anchored at both ends and each optional part begins with a character (\<^verbatim>\<open>[\<close>, or one
  of \<^verbatim>\<open>-\<close> and \<^verbatim>\<open>.\<close>) that nothing after it can begin with, and a digit run is always
  followed by a non-digit or the end; so a text has at most one match, found by
  reading from left to right.

  \<open>bracketGroup\<close> is the optional \<^verbatim>\<open>(?:\[(\d+)\])?\<close>: the digits between the brackets
  and the rest of the text, or no digits and the whole text when it does not begin
  with \<^verbatim>\<open>[\<close>; \<open>None\<close> when a \<^verbatim>\<open>[\<close> is not followed by digits and \<^verbatim>\<open>]\<close>, since then
  the part matches nothing and what follows it cannot match \<^verbatim>\<open>[\<close>. \<open>sepNumber\<close> is
  \<^verbatim>\<open>[-\.](\d+)\<close>.
\<close>

definition bracketGroup :: "string \<Rightarrow> (string \<times> string) option" where
  "bracketGroup s =
    (case s of
       [] \<Rightarrow> Some ([], s)
     | c # t \<Rightarrow>
        if c = CHR ''['' then
          (case dropWhile is_digit t of
             [] \<Rightarrow> None
           | c' # rest \<Rightarrow>
              if c' = CHR '']'' \<and> takeWhile is_digit t \<noteq> [] then Some (takeWhile is_digit t, rest)
              else None)
        else Some ([], s))"

definition sepNumber :: "string \<Rightarrow> (string \<times> string) option" where
  "sepNumber s =
    (case s of
       [] \<Rightarrow> None
     | c # t \<Rightarrow>
        if (c = CHR ''-'' \<or> c = CHR ''.'') \<and> takeWhile is_digit t \<noteq> []
        then Some (takeWhile is_digit t, dropWhile is_digit t)
        else None)"

text \<open>The capture groups: segment, segmentIndex, field, repetitionIndex, component, subcomponent.\<close>

record captures =
  segmentGroup :: string
  segmentIndexGroup :: string
  fieldGroup :: string
  repetitionIndexGroup :: string
  componentGroup :: string
  subcomponentGroup :: string

definition matchTail :: "string \<Rightarrow> string \<Rightarrow> captures option" where
  "matchTail seg r0 =
    (case bracketGroup r0 of None \<Rightarrow> None | Some (segIdx, r1) \<Rightarrow>
     if r1 = [] then
       Some \<lparr>segmentGroup = seg, segmentIndexGroup = segIdx, fieldGroup = [],
             repetitionIndexGroup = [], componentGroup = [], subcomponentGroup = []\<rparr>
     else
     (case sepNumber r1 of None \<Rightarrow> None | Some (fld, r2) \<Rightarrow>
     (case bracketGroup r2 of None \<Rightarrow> None | Some (rep, r3) \<Rightarrow>
     if r3 = [] then
       Some \<lparr>segmentGroup = seg, segmentIndexGroup = segIdx, fieldGroup = fld,
             repetitionIndexGroup = rep, componentGroup = [], subcomponentGroup = []\<rparr>
     else
     (case sepNumber r3 of None \<Rightarrow> None | Some (cmpt, r4) \<Rightarrow>
     if r4 = [] then
       Some \<lparr>segmentGroup = seg, segmentIndexGroup = segIdx, fieldGroup = fld,
             repetitionIndexGroup = rep, componentGroup = cmpt, subcomponentGroup = []\<rparr>
     else
     (case sepNumber r4 of None \<Rightarrow> None | Some (subc, r5) \<Rightarrow>
     if r5 = [] then
       Some \<lparr>segmentGroup = seg, segmentIndexGroup = segIdx, fieldGroup = fld,
             repetitionIndexGroup = rep, componentGroup = cmpt, subcomponentGroup = subc\<rparr>
     else None)))))"

definition FindStringSubmatch :: "string \<Rightarrow> captures option" where
  "FindStringSubmatch path =
    (case path of
       c0 # c1 # c2 # r0 \<Rightarrow>
         if is_upper c0 \<and> (is_upper c1 \<or> is_digit c1) \<and> (is_upper c2 \<or> is_digit c2)
         then matchTail [c0, c1, c2] r0 else None
     | _ \<Rightarrow> None)"

text \<open>
  \<^verbatim>\<open>func ParsePath(path string) (HL7Path, error)\<close>. The loop over \<^verbatim>\<open>captureGroups\<close>
  fills the fields in order; the default of the repetition index looks at the field
  already stored.
\<close>

definition ParsePath :: "string \<Rightarrow> error + HL7Path" where
  "ParsePath path =
    (if path = [] then Inr zero_path else
     (case FindStringSubmatch path of None \<Rightarrow> Inl InvalidPathFormat | Some m \<Rightarrow>
     (case parseSegmentNameOrError (segmentGroup m) of Inl e \<Rightarrow> Inl e | Inr segment \<Rightarrow>
     let segIdx = parseIntOrDefault (segmentIndexGroup m) 1;
         fld = parseIntOrDefault (fieldGroup m) 0;
         dflt = (if fld > 0 then 1 else 0);
         rep = parseIntOrDefault (repetitionIndexGroup m) dflt;
         cmpt = parseIntOrDefault (componentGroup m) 0;
         subc = parseIntOrDefault (subcomponentGroup m) 0
     in Inr \<lparr>Segment = segment, SegmentIndex = segIdx, Field = fld, RepetitionIndex = rep,
             Component = cmpt, Subcomponent = subc\<rparr>)))"

section \<open>Data of the repository used in examples\<close>

text \<open>
  The message of \<^verbatim>\<open>cmd/hl7Parser/main.go\<close>: a header segment and a PID segment joined
  by a carriage return. The backslash is written as the byte \<open>0x5C\<close>.
\<close>

definition main_message :: string where
  "main_message =
     ''MSH|^~'' @ [CHR 0x5C] @
     ''&|SendingApp|SendingFac|ReceivingApp|ReceivingFac|20240101120000||ADT^A01|123|P|2.5''
     @ [CR] @ ''PID|1||PatientID|||Doe^John''"

text \<open>
  The beginning \<^verbatim>\<open>MSH|^~\&|HIS|RIH|\<close> of the header segment of the test message, and
  the delimiters such a header declares.
\<close>

definition header_prefix :: string where
  "header_prefix = ''MSH|^~'' @ [CHR 0x5C] @ ''&|HIS|RIH|''"

definition standard_delimiters :: DelimiterSet where
  "standard_delimiters = \<lparr>fieldSeparator = CHR ''|'', componentSeparator = CHR ''^'',
     repetitionSeparator = CHR ''~'', escapeCharacter = CHR 0x5C,
     subcomponentSeparator = CHR ''&''\<rparr>"

section \<open>Notions used to state the properties\<close>

text \<open>
  "The addressed data is absent", over the lists the code splits: fewer matching
  segments than the segment index asks for (an index below 1 is never reached by the
  counter), or, at the first level where the path asks for a part, an index outside the
  list split at that level. A zero field, component or subcomponent asks for the whole
  of the level above and is not an absence; a path with no segment asks for the whole
  message, no scan runs for it, and nothing is absent.
\<close>

definition data_absent :: "string list \<Rightarrow> HL7Path \<Rightarrow> DelimiterSet \<Rightarrow> bool" where
  "data_absent segments p d =
    (let matching = filter (\<lambda>s. HasPrefix s (Segment p)) segments in
     if Segment p = [] then False else
     if SegmentIndex p < 1 \<or> int (length matching) < SegmentIndex p then True else
     if Field p = 0 then False else
     case fieldsOf (matching ! nat (SegmentIndex p - 1)) p d of Inl e \<Rightarrow> False | Inr fieldList \<Rightarrow>
     if Field p < 0 \<or> int (length fieldList) \<le> Field p then True else
     let repetitions = repetitionsOf (fieldList ! nat (Field p)) p d in
     if RepetitionIndex p < 1 \<or> int (length repetitions) < RepetitionIndex p then True else
     if Component p = 0 then False else
     let components = Split (repetitions ! nat (RepetitionIndex p - 1))
                        (string_of_byte (componentSeparator d)) in
     if Component p < 1 \<or> int (length components) < Component p then True else
     if Subcomponent p = 0 then False else
     let subcomponents = Split (components ! nat (Component p - 1))
                           (string_of_byte (subcomponentSeparator d)) in
     Subcomponent p < 1 \<or> int (length subcomponents) < Subcomponent p)"

text \<open>
  The segment token of a path text: what stands before the first bracket or separator.
\<close>

definition segment_token :: "string \<Rightarrow> string" where
  "segment_token path =
     takeWhile (\<lambda>c. c \<noteq> CHR ''['' \<and> c \<noteq> CHR ''-'' \<and> c \<noteq> CHR ''.'') path"

section \<open>Evaluation rules\<close>

lemmas parser_defs = ParsePath_def FindStringSubmatch_def matchTail_def bracketGroup_def
  sepNumber_def is_upper_def is_digit_def parseSegmentNameOrError_def parseIntOrDefault_def
  decimal_def maxInt_def zero_path_def

section \<open>Splitting and replacing\<close>

lemma genSplit_not_Nil: "genSplit sep acc s \<noteq> []"
  by (induction sep acc s rule: genSplit.induct) auto

lemma Split_not_Nil: "Split s sep \<noteq> []"
  by (simp add: Split_def genSplit_not_Nil)

lemma HasPrefix_iff: "HasPrefix s pre \<longleftrightarrow> (\<exists>rest. s = pre @ rest)"
proof
  assume "HasPrefix s pre"
  then have "s = pre @ drop (length pre) s"
    by (metis HasPrefix_def append_take_drop_id)
  then show "\<exists>rest. s = pre @ rest" ..
next
  assume "\<exists>rest. s = pre @ rest"
  then show "HasPrefix s pre" by (auto simp: HasPrefix_def)
qed

lemma HasPrefix_Cons_Cons: "HasPrefix (x # s) (y # sep) \<longleftrightarrow> x = y \<and> HasPrefix s sep"
  by (auto simp: HasPrefix_def)

lemma HasPrefix_Nil: "HasPrefix s []"
  by (simp add: HasPrefix_def)

text \<open>The piece being read is the head of what the rest of the text splits into.\<close>

lemma genSplit_acc:
  "genSplit sep acc s = (rev acc @ hd (genSplit sep [] s)) # tl (genSplit sep [] s)"
proof (induction s arbitrary: acc)
  case Nil
  show ?case by simp
next
  case (Cons c s)
  show ?case
  proof (cases "sep \<noteq> [] \<and> HasPrefix (c # s) sep")
    case True
    then show ?thesis by simp
  next
    case False
    then show ?thesis
      using Cons [of "c # acc"] Cons [of "[c]"] by simp
  qed
qed

lemma ReplaceAll_skip:
  "c \<notin> set pre \<Longrightarrow> ReplaceAll (pre @ rest) [c] new = pre @ ReplaceAll rest [c] new"
  by (induction pre) (auto simp: HasPrefix_Cons_Cons HasPrefix_Nil)

lemma genSplit_skip:
  "c \<notin> set pre \<Longrightarrow> genSplit (c # sep) acc (pre @ s) = genSplit (c # sep) (rev pre @ acc) s"
  by (induction pre arbitrary: acc) (auto simp: HasPrefix_Cons_Cons)

lemma splitByAnyOf_line_terminators:
  "splitByAnyOf s line_terminators =
     Split (ReplaceAll (ReplaceAll s [CR] [CR, LF]) [LF] [CR, LF]) [CR, LF]"
  by (simp add: splitByAnyOf_def line_terminators_def sortByLenDesc_def)

lemma first_segment:
  assumes "CR \<notin> set pre" "LF \<notin> set pre"
  shows "\<exists>x others. splitByAnyOf (pre @ rest) line_terminators = (pre @ x) # others"
proof -
  let ?r = "ReplaceAll (ReplaceAll rest [CR] [CR, LF]) [LF] [CR, LF]"
  have "splitByAnyOf (pre @ rest) line_terminators = genSplit [CR, LF] (rev pre) ?r"
    using assms
    by (simp add: splitByAnyOf_line_terminators ReplaceAll_skip Split_def genSplit_skip)
  also have "\<dots> = (pre @ hd (genSplit [CR, LF] [] ?r)) # tl (genSplit [CR, LF] [] ?r)"
    using genSplit_acc [of "[CR, LF]" "rev pre" ?r] by simp
  finally show ?thesis by blast
qed

section \<open>The scan over the segments\<close>

lemma scanSegments_filter:
  "scanSegments segs c p d =
    (let matching = filter (\<lambda>s. HasPrefix s (Segment p)) segs in
     if c < SegmentIndex p \<and> SegmentIndex p \<le> c + int (length matching)
     then extractFrom (matching ! nat (SegmentIndex p - c - 1)) p d else Inr [])"
proof (induction segs arbitrary: c)
  case Nil
  show ?case by auto
next
  case (Cons seg segs)
  show ?case
  proof (cases "HasPrefix seg (Segment p)")
    case False
    then show ?thesis using Cons.IH [of c] by simp
  next
    case True
    show ?thesis
    proof (cases "c + 1 = SegmentIndex p")
      case True
      with \<open>HasPrefix seg (Segment p)\<close> show ?thesis by (auto simp: Let_def)
    next
      case False
      have "nat (SegmentIndex p - c - 1) = Suc (nat (SegmentIndex p - (c + 1) - 1))"
        if "c + 1 < SegmentIndex p"
        using that by linarith
      with False \<open>HasPrefix seg (Segment p)\<close> show ?thesis
        using Cons.IH [of "c + 1"] by (auto simp: Let_def)
    qed
  qed
qed

lemma fieldsOf_no_panic: "\<exists>fieldList. fieldsOf segment p d = Inr fieldList"
proof -
  have "1 \<le> length (Split segment (string_of_byte (fieldSeparator d)))"
    using Split_not_Nil [of segment "string_of_byte (fieldSeparator d)"]
    by (cases "Split segment (string_of_byte (fieldSeparator d))") auto
  then show ?thesis
    by (simp add: fieldsOf_def slice_def Let_def)
qed

lemma fieldsOf_MSH:
  assumes "Segment p = ''MSH''"
    and "Split segment (string_of_byte (fieldSeparator d)) = f0 # others"
  shows "fieldsOf segment p d = Inr (f0 # string_of_byte (fieldSeparator d) # others)"
  using assms by (simp add: fieldsOf_def slice_def)

lemma Validate_repetition:
  "Validate p = None \<Longrightarrow> 0 \<le> RepetitionIndex p \<Longrightarrow> Field p \<noteq> 0 \<longrightarrow> 1 \<le> RepetitionIndex p"
  by (auto simp: Validate_def split: if_splits)

lemma AbstractHL7_reaches_scan:
  assumes "10 \<le> length m" "take 3 m = ''MSH''"
    and "checkSeparators (take 7 (drop 3 m)) (m ! 3) = Inr d"
    and "Validate p = None" "Segment p \<noteq> []" "\<not> (Segment p = ''MSH'' \<and> Field p = 1)"
  shows "AbstractHL7 m p = scanSegments (splitByAnyOf m line_terminators) 0 p d"
proof -
  have z: "p \<noteq> zero_path"
    using assms(5) by (auto simp: zero_path_def)
  have i0: "index_at (take 7 (drop 3 m)) 0 = Inr (m ! 3)"
    using assms(1) by (simp add: index_at_def)
  show ?thesis
    using assms z by (auto simp: AbstractHL7_def slice_def i0)
qed

section \<open>The zero-value path\<close>

text \<open>
  Claim C2. For every message string \<open>m\<close>, \<open>AbstractHL7 m p\<close> with \<open>p\<close> the zero-value
  path returns \<open>m\<close> unchanged and without error; no header or delimiter check runs
  first, so this holds for a message that does not begin with MSH and for one shorter
  than ten bytes, the empty one included.
\<close>

theorem AbstractHL7_zero_path: "AbstractHL7 m zero_path = Inr m"
  by (simp add: AbstractHL7_def Validate_def zero_path_def)

section \<open>Validation comes first\<close>

text \<open>
  Claim C8. When the path fails validation, \<open>AbstractHL7\<close> returns that validation
  error whatever the message is: for every two messages \<open>m1\<close> and \<open>m2\<close> the two calls
  return the same error, the one \<open>Validate\<close> reports, which is one of its eight
  messages.
\<close>

theorem validation_failure_independent_of_message:
  assumes "Validate p = Some e"
  shows "AbstractHL7 m1 p = Inl e \<and> AbstractHL7 m2 p = Inl e \<and> is_validation_error e"
proof -
  have "is_validation_error e"
    using assms by (auto simp: Validate_def is_validation_error_def split: if_splits)
  with assms show ?thesis
    by (simp add: AbstractHL7_def)
qed

text \<open>
  The path text \<^verbatim>\<open>MSH[2].1\<close> parses to a path with segment index 2, which fails with
  "if Segment is MSH, SegmentIndex must be 1" on a well-formed message and on the empty
  one alike.
\<close>

theorem validation_failure_independent_of_message_witness:
  "ParsePath ''MSH[2].1'' = Inr \<lparr>Segment = ''MSH'', SegmentIndex = 2, Field = 1,
      RepetitionIndex = 1, Component = 0, Subcomponent = 0\<rparr>
   \<and> error_message MshSegmentIndexNotOne = ''if Segment is MSH, SegmentIndex must be 1''
   \<and> AbstractHL7 main_message
        \<lparr>Segment = ''MSH'', SegmentIndex = 2, Field = 1,
         RepetitionIndex = 1, Component = 0, Subcomponent = 0\<rparr> = Inl MshSegmentIndexNotOne
   \<and> AbstractHL7 []
        \<lparr>Segment = ''MSH'', SegmentIndex = 2, Field = 1,
         RepetitionIndex = 1, Component = 0, Subcomponent = 0\<rparr> = Inl MshSegmentIndexNotOne"
proof -
  have v: "Validate \<lparr>Segment = ''MSH'', SegmentIndex = 2, Field = 1,
      RepetitionIndex = 1, Component = 0, Subcomponent = 0\<rparr> = Some MshSegmentIndexNotOne"
    by (simp add: Validate_def)
  have p: "ParsePath ''MSH[2].1'' = Inr \<lparr>Segment = ''MSH'', SegmentIndex = 2, Field = 1,
      RepetitionIndex = 1, Component = 0, Subcomponent = 0\<rparr>"
    by (simp add: parser_defs)
  show ?thesis
    using validation_failure_independent_of_message [OF v, of main_message "[]"] p
    by simp
qed

section \<open>The order of the header checks\<close>

lemma seenTwice_five:
  "seenTwice [a, b, c, d, e] (\<lambda>_. False) \<longleftrightarrow> \<not> distinct [a, b, c, d, e]"
  by auto

lemma checkSeparators_chain:
  assumes "10 \<le> length m"
  shows "checkSeparators (take 7 (drop 3 m)) (m ! 3) =
    (if m ! 4 = m ! 3 then Inl MissingComponentSeparator
     else if m ! 5 = m ! 3 then Inl MissingRepetitionSeparator
     else if m ! 6 = m ! 3 then Inl MissingEscapeCharacter
     else if m ! 7 = m ! 3 then Inl MissingSubcomponentSeparator
     else if m ! 8 \<noteq> m ! 3 \<and> m ! 9 \<noteq> m ! 3 then Inl UnexpectedExtraSeparators
     else if \<not> distinct [m ! 3, m ! 4, m ! 5, m ! 6, m ! 7] then Inl SeparatorsNotUnique
     else Inr \<lparr>fieldSeparator = m ! 3, componentSeparator = m ! 4,
              repetitionSeparator = m ! 5, escapeCharacter = m ! 6,
              subcomponentSeparator = m ! 7\<rparr>)"
proof -
  have i: "index_at (take 7 (drop 3 m)) 1 = Inr (m ! 4)"
     "index_at (take 7 (drop 3 m)) 2 = Inr (m ! 5)"
     "index_at (take 7 (drop 3 m)) 3 = Inr (m ! 6)"
     "index_at (take 7 (drop 3 m)) 4 = Inr (m ! 7)"
     "index_at (take 7 (drop 3 m)) 5 = Inr (m ! 8)"
     "index_at (take 7 (drop 3 m)) 6 = Inr (m ! 9)"
    using assms by (simp_all add: index_at_def)
  show ?thesis
    unfolding checkSeparators_def i seenTwice_five by simp
qed

text \<open>
  Claim C5, as amended. The checks run in the order of the code: the message begins
  with MSH; it has ten bytes; a path for MSH field 1 is answered with the field
  separator; each of the four other delimiters differs from the field separator; the
  closing pair, of which one byte must be the field separator; uniqueness of the five
  delimiters; and only then the scan of the segments. For every message and every
  valid path that is not the zero value, the result is that of the first step in this
  order that applies. In particular, for a message of at least ten bytes whose bytes 8
  and 9 (positions 5 and 6 of the delimiter block) both differ from the field separator
  at byte 3: a path for MSH field 1 on a message beginning with MSH gets the field
  separator and no error, and every other path gets a message-structure error.
\<close>

theorem header_checks_in_code_order:
  assumes "Validate p = None" "p \<noteq> zero_path"
  shows "AbstractHL7 m p =
    (if length m < 3 \<or> take 3 m \<noteq> ''MSH'' then Inl MustBeginWithMSH
     else if length m < 10 then Inl MessageTooShort
     else if Segment p = ''MSH'' \<and> Field p = 1 then Inr (string_of_byte (m ! 3))
     else if m ! 4 = m ! 3 then Inl MissingComponentSeparator
     else if m ! 5 = m ! 3 then Inl MissingRepetitionSeparator
     else if m ! 6 = m ! 3 then Inl MissingEscapeCharacter
     else if m ! 7 = m ! 3 then Inl MissingSubcomponentSeparator
     else if m ! 8 \<noteq> m ! 3 \<and> m ! 9 \<noteq> m ! 3 then Inl UnexpectedExtraSeparators
     else if \<not> distinct [m ! 3, m ! 4, m ! 5, m ! 6, m ! 7] then Inl SeparatorsNotUnique
     else scanSegments (splitByAnyOf m line_terminators) 0 p
            \<lparr>fieldSeparator = m ! 3, componentSeparator = m ! 4,
             repetitionSeparator = m ! 5, escapeCharacter = m ! 6,
             subcomponentSeparator = m ! 7\<rparr>)
   \<and> (10 \<le> length m \<and> m ! 8 \<noteq> m ! 3 \<and> m ! 9 \<noteq> m ! 3 \<longrightarrow>
        (if take 3 m = ''MSH'' \<and> Segment p = ''MSH'' \<and> Field p = 1
         then AbstractHL7 m p = Inr (string_of_byte (m ! 3))
         else (\<exists>e. AbstractHL7 m p = Inl e \<and> is_message_structure_error e)))"
proof -
  have r: "AbstractHL7 m p =
    (if length m < 3 \<or> take 3 m \<noteq> ''MSH'' then Inl MustBeginWithMSH
     else if length m < 10 then Inl MessageTooShort
     else if Segment p = ''MSH'' \<and> Field p = 1 then Inr (string_of_byte (m ! 3))
     else if m ! 4 = m ! 3 then Inl MissingComponentSeparator
     else if m ! 5 = m ! 3 then Inl MissingRepetitionSeparator
     else if m ! 6 = m ! 3 then Inl MissingEscapeCharacter
     else if m ! 7 = m ! 3 then Inl MissingSubcomponentSeparator
     else if m ! 8 \<noteq> m ! 3 \<and> m ! 9 \<noteq> m ! 3 then Inl UnexpectedExtraSeparators
     else if \<not> distinct [m ! 3, m ! 4, m ! 5, m ! 6, m ! 7] then Inl SeparatorsNotUnique
     else scanSegments (splitByAnyOf m line_terminators) 0 p
            \<lparr>fieldSeparator = m ! 3, componentSeparator = m ! 4,
             repetitionSeparator = m ! 5, escapeCharacter = m ! 6,
             subcomponentSeparator = m ! 7\<rparr>)"
  proof (cases "10 \<le> length m")
    case False
    then show ?thesis
      using assms by (auto simp: AbstractHL7_def slice_def)
  next
    case True
    have i0: "index_at (take 7 (drop 3 m)) 0 = Inr (m ! 3)"
      using True by (simp add: index_at_def)
    show ?thesis
      using assms True
      by (simp add: AbstractHL7_def slice_def i0 checkSeparators_chain [OF True])
  qed
  have s: "if take 3 m = ''MSH'' \<and> Segment p = ''MSH'' \<and> Field p = 1
         then AbstractHL7 m p = Inr (string_of_byte (m ! 3))
         else (\<exists>e. AbstractHL7 m p = Inl e \<and> is_message_structure_error e)"
    if "10 \<le> length m \<and> m ! 8 \<noteq> m ! 3 \<and> m ! 9 \<noteq> m ! 3"
    using that unfolding r by (auto simp: is_message_structure_error_def)
  show ?thesis
    using r s by blast
qed

text \<open>
  One message for each step: \<^verbatim>\<open>PID|1\<close> is short and does not begin with MSH, and the
  first check answers; \<^verbatim>\<open>MSH|^~\<close> is too short; on \<^verbatim>\<open>MSH|^~\&XY\<close> the path MSH.1
  gets the bar and the path MSH.2 "unexpected extra separators"; \<^verbatim>\<open>MSH||~\&|A\<close> lacks
  the component separator; in \<^verbatim>\<open>MSH|^~^&|A\<close> the escape character repeats the
  component separator; and \<^verbatim>\<open>MSH|^~\&X|A\<close>, whose closing pair has the bar in its second
  byte only, passes all checks and the path MSH.3 reads the field after the bar.
\<close>

theorem header_checks_in_code_order_witness:
  "AbstractHL7 ''PID|1''
      \<lparr>Segment = ''MSH'', SegmentIndex = 1, Field = 2, RepetitionIndex = 1,
       Component = 0, Subcomponent = 0\<rparr> = Inl MustBeginWithMSH
   \<and> AbstractHL7 ''MSH|^~''
      \<lparr>Segment = ''MSH'', SegmentIndex = 1, Field = 2, RepetitionIndex = 1,
       Component = 0, Subcomponent = 0\<rparr> = Inl MessageTooShort
   \<and> AbstractHL7 (''MSH|^~'' @ [CHR 0x5C] @ ''&XY'')
      \<lparr>Segment = ''MSH'', SegmentIndex = 1, Field = 1, RepetitionIndex = 1,
       Component = 0, Subcomponent = 0\<rparr> = Inr ''|''
   \<and> AbstractHL7 (''MSH|^~'' @ [CHR 0x5C] @ ''&XY'')
      \<lparr>Segment = ''MSH'', SegmentIndex = 1, Field = 2, RepetitionIndex = 1,
       Component = 0, Subcomponent = 0\<rparr> = Inl UnexpectedExtraSeparators
   \<and> AbstractHL7 (''MSH||~'' @ [CHR 0x5C] @ ''&|A'')
      \<lparr>Segment = ''MSH'', SegmentIndex = 1, Field = 2, RepetitionIndex = 1,
       Component = 0, Subcomponent = 0\<rparr> = Inl MissingComponentSeparator
   \<and> AbstractHL7 ''MSH|^~^&|A''
      \<lparr>Segment = ''MSH'', SegmentIndex = 1, Field = 2, RepetitionIndex = 1,
       Component = 0, Subcomponent = 0\<rparr> = Inl SeparatorsNotUnique
   \<and> AbstractHL7 (''MSH|^~'' @ [CHR 0x5C] @ ''&X|A'')
      \<lparr>Segment = ''MSH'', SegmentIndex = 1, Field = 3, RepetitionIndex = 1,
       Component = 0, Subcomponent = 0\<rparr> = Inr ''A''"
proof -
  let ?p1 = "\<lparr>Segment = ''MSH'', SegmentIndex = 1, Field = 1, RepetitionIndex = 1,
       Component = 0, Subcomponent = 0\<rparr>"
  let ?p2 = "\<lparr>Segment = ''MSH'', SegmentIndex = 1, Field = 2, RepetitionIndex = 1,
       Component = 0, Subcomponent = 0\<rparr>"
  let ?p3 = "\<lparr>Segment = ''MSH'', SegmentIndex = 1, Field = 3, RepetitionIndex = 1,
       Component = 0, Subcomponent = 0\<rparr>"
  have v: "Validate ?p1 = None" "Validate ?p2 = None" "Validate ?p3 = None"
    by (simp_all add: Validate_def)
  have z: "?p1 \<noteq> zero_path" "?p2 \<noteq> zero_path" "?p3 \<noteq> zero_path"
    by (simp_all add: zero_path_def)
  have scan: "scanSegments (splitByAnyOf (''MSH|^~'' @ [CHR 0x5C] @ ''&X|A'') line_terminators)
      0 ?p3 standard_delimiters = Inr ''A''"
    by code_simp
  have a: "AbstractHL7 ''PID|1'' ?p2 = Inl MustBeginWithMSH"
    using header_checks_in_code_order [OF v(2) z(2), of "''PID|1''"] by simp
  have b: "AbstractHL7 ''MSH|^~'' ?p2 = Inl MessageTooShort"
    using header_checks_in_code_order [OF v(2) z(2), of "''MSH|^~''"] by simp
  have c: "AbstractHL7 (''MSH|^~'' @ [CHR 0x5C] @ ''&XY'') ?p1 = Inr ''|''"
    using header_checks_in_code_order [OF v(1) z(1), of "''MSH|^~'' @ [CHR 0x5C] @ ''&XY''"]
    by (simp add: string_of_byte_def)
  have d: "AbstractHL7 (''MSH|^~'' @ [CHR 0x5C] @ ''&XY'') ?p2 = Inl UnexpectedExtraSeparators"
    using header_checks_in_code_order [OF v(2) z(2), of "''MSH|^~'' @ [CHR 0x5C] @ ''&XY''"]
    by simp
  have e: "AbstractHL7 (''MSH||~'' @ [CHR 0x5C] @ ''&|A'') ?p2 = Inl MissingComponentSeparator"
    using header_checks_in_code_order [OF v(2) z(2), of "''MSH||~'' @ [CHR 0x5C] @ ''&|A''"]
    by simp
  have f: "AbstractHL7 ''MSH|^~^&|A'' ?p2 = Inl SeparatorsNotUnique"
    using header_checks_in_code_order [OF v(2) z(2), of "''MSH|^~^&|A''"] by simp
  have g: "AbstractHL7 (''MSH|^~'' @ [CHR 0x5C] @ ''&X|A'') ?p3 = Inr ''A''"
    using header_checks_in_code_order [OF v(3) z(3), of "''MSH|^~'' @ [CHR 0x5C] @ ''&X|A''"]
      scan
    by (simp add: standard_delimiters_def)
  show ?thesis
    using a b c d e f g by blast
qed

text \<open>
  Claim C5 as stated fails: in the ten bytes \<^verbatim>\<open>MSH|^~\&XY\<close> positions 5 and 6 of the
  delimiter block are X and Y, not the bar, yet the path MSH.1, which \<open>Validate\<close>
  accepts, gets the bar and no error.
\<close>

theorem closing_pair_not_checked_before_MSH1_counterexample:
  "(''MSH|^~'' @ [CHR 0x5C] @ ''&XY'') ! 8 \<noteq> (''MSH|^~'' @ [CHR 0x5C] @ ''&XY'') ! 3
   \<and> (''MSH|^~'' @ [CHR 0x5C] @ ''&XY'') ! 9 \<noteq> (''MSH|^~'' @ [CHR 0x5C] @ ''&XY'') ! 3
   \<and> Validate \<lparr>Segment = ''MSH'', SegmentIndex = 1, Field = 1, RepetitionIndex = 1,
       Component = 0, Subcomponent = 0\<rparr> = None
   \<and> AbstractHL7 (''MSH|^~'' @ [CHR 0x5C] @ ''&XY'')
      \<lparr>Segment = ''MSH'', SegmentIndex = 1, Field = 1, RepetitionIndex = 1,
       Component = 0, Subcomponent = 0\<rparr> = Inr ''|''"
  by code_simp

section \<open>What the parser reports\<close>

lemma matchTail_start:
  assumes "matchTail seg r0 = Some m"
  shows "r0 = [] \<or> hd r0 = CHR ''['' \<or> hd r0 = CHR ''-'' \<or> hd r0 = CHR ''.''"
proof (cases r0)
  case Nil
  then show ?thesis by simp
next
  case (Cons c t)
  show ?thesis
  proof (cases "c = CHR ''[''")
    case True
    with Cons show ?thesis by simp
  next
    case False
    then have b: "bracketGroup r0 = Some ([], r0)"
      using Cons by (simp add: bracketGroup_def)
    have ne: "r0 \<noteq> []"
      using Cons by simp
    have "sepNumber r0 \<noteq> None"
    proof
      assume n: "sepNumber r0 = None"
      have "matchTail seg r0 = None"
        by (simp add: matchTail_def b n ne)
      with assms show False by simp
    qed
    then show ?thesis
      using Cons by (auto simp: sepNumber_def split: if_splits)
  qed
qed

lemma matchTail_segment: "matchTail seg r0 = Some m \<Longrightarrow> segmentGroup m = seg"
  by (auto simp: matchTail_def split: option.splits if_splits prod.splits)

lemma name_char_not_stop:
  "is_upper c \<or> is_digit c \<Longrightarrow> c \<noteq> CHR ''['' \<and> c \<noteq> CHR ''-'' \<and> c \<noteq> CHR ''.''"
  by (auto simp: is_upper_def is_digit_def)

lemma segmentNameLoop_errors:
  "segmentNameLoop i s = Some e \<Longrightarrow> e = SegmentNameFirstChar \<or> e = SegmentNameNotAlnum"
  by (induction s arbitrary: i) (auto split: if_splits)

text \<open>
  A text the expression matches has a well-shaped segment token, which is the first
  capture group.
\<close>

lemma FindStringSubmatch_token:
  assumes "FindStringSubmatch path = Some m"
  shows "segment_token path = segmentGroup m
    \<and> parseSegmentNameOrError (segmentGroup m) = Inr (segmentGroup m)"
proof -
  from assms obtain c0 c1 c2 r0 where
    path: "path = c0 # c1 # c2 # r0"
    and cls: "is_upper c0" "is_upper c1 \<or> is_digit c1" "is_upper c2 \<or> is_digit c2"
    and mt: "matchTail [c0, c1, c2] r0 = Some m"
    by (auto simp: FindStringSubmatch_def split: list.splits if_splits)
  have seg: "segmentGroup m = [c0, c1, c2]"
    using matchTail_segment [OF mt] .
  have stop: "r0 = [] \<or> hd r0 = CHR ''['' \<or> hd r0 = CHR ''-'' \<or> hd r0 = CHR ''.''"
    using matchTail_start [OF mt] .
  have n0: "c0 \<noteq> CHR ''['' \<and> c0 \<noteq> CHR ''-'' \<and> c0 \<noteq> CHR ''.''"
    using name_char_not_stop cls(1) by blast
  have n1: "c1 \<noteq> CHR ''['' \<and> c1 \<noteq> CHR ''-'' \<and> c1 \<noteq> CHR ''.''"
    using name_char_not_stop cls(2) by blast
  have n2: "c2 \<noteq> CHR ''['' \<and> c2 \<noteq> CHR ''-'' \<and> c2 \<noteq> CHR ''.''"
    using name_char_not_stop cls(3) by blast
  have tok: "segment_token path = [c0, c1, c2]"
    using stop n0 n1 n2 by (cases r0) (auto simp: segment_token_def path)
  have ok: "parseSegmentNameOrError [c0, c1, c2] = Inr [c0, c1, c2]"
    using cls by (auto simp: parseSegmentNameOrError_def)
  show ?thesis using seg tok ok by simp
qed

text \<open>
  Claim C6, as amended. For every non-empty input to \<open>ParsePath\<close> whose segment token
  violates the segment-name shape (\<open>parseSegmentNameOrError\<close> rejects it with one of
  its three messages), \<open>ParsePath\<close> returns the generic error "invalid path format",
  which is none of the three: the regular expression rejects the text before
  \<open>parseSegmentNameOrError\<close> is called.
\<close>

theorem bad_segment_token_is_invalid_path_format:
  assumes "path \<noteq> []" "parseSegmentNameOrError (segment_token path) = Inl e"
  shows "ParsePath path = Inl InvalidPathFormat \<and> is_segment_name_error e
    \<and> \<not> is_segment_name_error InvalidPathFormat"
proof -
  have e: "is_segment_name_error e"
    using assms(2) segmentNameLoop_errors [of 0 "segment_token path"]
    by (auto simp: parseSegmentNameOrError_def is_segment_name_error_def
        split: if_splits option.splits)
  have p: "ParsePath path = Inl InvalidPathFormat"
  proof (cases "FindStringSubmatch path")
    case None
    with assms(1) show ?thesis by (simp add: ParsePath_def)
  next
    case (Some m)
    then show ?thesis
      using FindStringSubmatch_token [OF Some] assms(2) by simp
  qed
  show ?thesis
    using e p by (simp add: is_segment_name_error_def)
qed

text \<open>The tokens \<^verbatim>\<open>PIDX\<close> (four characters) and \<^verbatim>\<open>PV_\<close> (an underscore).\<close>

theorem bad_segment_token_is_invalid_path_format_witness:
  "ParsePath ''PIDX'' = Inl InvalidPathFormat \<and> ParsePath ''PV_'' = Inl InvalidPathFormat"
proof -
  have a: "''PIDX'' \<noteq> []" "parseSegmentNameOrError (segment_token ''PIDX'') = Inl SegmentNameLength"
    by (simp_all add: segment_token_def parseSegmentNameOrError_def)
  have b: "''PV_'' \<noteq> []" "parseSegmentNameOrError (segment_token ''PV_'') = Inl SegmentNameNotAlnum"
    by (simp_all add: segment_token_def parseSegmentNameOrError_def is_upper_def is_digit_def)
  show ?thesis
    using bad_segment_token_is_invalid_path_format [OF a]
      bad_segment_token_is_invalid_path_format [OF b]
    by simp
qed

text \<open>
  Claim C6 as stated fails: the segment token \<^verbatim>\<open>1AB\<close> of the input \<^verbatim>\<open>1AB-2\<close> begins
  with a digit, for which \<open>parseSegmentNameOrError\<close> has the message "segment name must
  begin with an uppercase letter", but \<open>ParsePath\<close> returns "invalid path format".
\<close>

theorem segment_name_message_counterexample:
  "parseSegmentNameOrError (segment_token ''1AB-2'') = Inl SegmentNameFirstChar
   \<and> ParsePath ''1AB-2'' = Inl InvalidPathFormat
   \<and> error_message InvalidPathFormat = ''invalid path format''
   \<and> SegmentNameFirstChar \<noteq> InvalidPathFormat"
  by code_simp

section \<open>Numbers too large for an int\<close>

text \<open>
  Claim C10. The path text \<^verbatim>\<open>PID[99999999999999999999]\<close> matches the grammar; its
  index group exceeds the largest 64-bit integer, the conversion fails, and
  \<open>ParsePath\<close> returns no error and the default segment index 1 in place of the number
  written. The largest integer itself is still read as written.
\<close>

theorem ParsePath_overflow_gives_default:
  "maxInt < decimal ''99999999999999999999''
   \<and> ParsePath ''PID[99999999999999999999]'' =
       Inr \<lparr>Segment = ''PID'', SegmentIndex = 1, Field = 0, RepetitionIndex = 0,
            Component = 0, Subcomponent = 0\<rparr>
   \<and> ParsePath ''PID[9223372036854775807]'' =
       Inr \<lparr>Segment = ''PID'', SegmentIndex = 9223372036854775807, Field = 0,
            RepetitionIndex = 0, Component = 0, Subcomponent = 0\<rparr>"
  by (simp add: parser_defs)

section \<open>Segment selection\<close>

text \<open>
  Claim C7. A segment matches the path exactly when its text starts with the segment
  name of the path, whatever follows the name; and for every segment list the scan
  returns what the code extracts from the segment at which the running count of
  matches, in the order of the list, first equals the segment index: that is the
  matching segment number \<open>SegmentIndex\<close>, counted from 1. When there is no such segment
  the result is the empty string.
\<close>

theorem segment_selection_by_prefix_and_count:
  "(HasPrefix segment name \<longleftrightarrow> (\<exists>rest. segment = name @ rest))
   \<and> scanSegments segments 0 p d =
      (let matching = filter (\<lambda>s. HasPrefix s (Segment p)) segments in
       if 1 \<le> SegmentIndex p \<and> SegmentIndex p \<le> int (length matching)
       then extractFrom (matching ! nat (SegmentIndex p - 1)) p d else Inr [])"
proof -
  have "scanSegments segments 0 p d =
      (let matching = filter (\<lambda>s. HasPrefix s (Segment p)) segments in
       if 1 \<le> SegmentIndex p \<and> SegmentIndex p \<le> int (length matching)
       then extractFrom (matching ! nat (SegmentIndex p - 1)) p d else Inr [])"
    using scanSegments_filter [of segments 0 p d] by (simp add: Let_def)
  then show ?thesis using HasPrefix_iff by blast
qed

text \<open>
  A segment that begins \<^verbatim>\<open>PIDX\<close> matches the path segment \<^verbatim>\<open>PID\<close>: it is the first
  match, and the segment \<^verbatim>\<open>PID|b\<close> after it is the second.
\<close>

theorem segment_selection_by_prefix_and_count_witness:
  "HasPrefix ''PIDX|a'' ''PID''
   \<and> scanSegments [''MSH|'', ''PIDX|a'', ''PID|b''] 0
        \<lparr>Segment = ''PID'', SegmentIndex = 1, Field = 1, RepetitionIndex = 1,
         Component = 0, Subcomponent = 0\<rparr> standard_delimiters = Inr ''a''
   \<and> scanSegments [''MSH|'', ''PIDX|a'', ''PID|b''] 0
        \<lparr>Segment = ''PID'', SegmentIndex = 2, Field = 1, RepetitionIndex = 1,
         Component = 0, Subcomponent = 0\<rparr> standard_delimiters = Inr ''b''
   \<and> scanSegments [''MSH|'', ''PIDX|a'', ''PID|b''] 0
        \<lparr>Segment = ''PID'', SegmentIndex = 3, Field = 1, RepetitionIndex = 1,
         Component = 0, Subcomponent = 0\<rparr> standard_delimiters = Inr []"
proof -
  have h: "HasPrefix ''PIDX|a'' ''PID''" "\<not> HasPrefix ''MSH|'' ''PID''" "HasPrefix ''PID|b'' ''PID''"
    by (simp_all add: HasPrefix_def)
  have x: "extractFrom ''PIDX|a''
        \<lparr>Segment = ''PID'', SegmentIndex = 1, Field = 1, RepetitionIndex = 1,
         Component = 0, Subcomponent = 0\<rparr> standard_delimiters = Inr ''a''"
    "extractFrom ''PID|b''
        \<lparr>Segment = ''PID'', SegmentIndex = 2, Field = 1, RepetitionIndex = 1,
         Component = 0, Subcomponent = 0\<rparr> standard_delimiters = Inr ''b''"
    by code_simp+
  show ?thesis
    using segment_selection_by_prefix_and_count
        [of "''PIDX|a''" "''PID''" "[''MSH|'', ''PIDX|a'', ''PID|b'']"
          "\<lparr>Segment = ''PID'', SegmentIndex = 1, Field = 1, RepetitionIndex = 1,
            Component = 0, Subcomponent = 0\<rparr>" standard_delimiters]
      segment_selection_by_prefix_and_count
        [of "''PIDX|a''" "''PID''" "[''MSH|'', ''PIDX|a'', ''PID|b'']"
          "\<lparr>Segment = ''PID'', SegmentIndex = 2, Field = 1, RepetitionIndex = 1,
            Component = 0, Subcomponent = 0\<rparr>" standard_delimiters]
      segment_selection_by_prefix_and_count
        [of "''PIDX|a''" "''PID''" "[''MSH|'', ''PIDX|a'', ''PID|b'']"
          "\<lparr>Segment = ''PID'', SegmentIndex = 3, Field = 1, RepetitionIndex = 1,
            Component = 0, Subcomponent = 0\<rparr>" standard_delimiters]
    by (simp add: h x)
qed

section \<open>Indices stay in range\<close>

lemma extractFrom_no_panic:
  assumes "0 \<le> Field p" "0 \<le> Component p" "0 \<le> Subcomponent p"
    and "Field p \<noteq> 0 \<longrightarrow> 1 \<le> RepetitionIndex p"
  shows "extractFrom segment p d \<noteq> Inl IndexOutOfRange"
proof -
  obtain fieldList where f: "fieldsOf segment p d = Inr fieldList"
    using fieldsOf_no_panic by blast
  show ?thesis
    using assms by (auto simp: extractFrom_def f index_at_def Let_def)
qed

lemma scanSegments_no_panic:
  assumes "0 \<le> Field p" "0 \<le> Component p" "0 \<le> Subcomponent p"
    and "Field p \<noteq> 0 \<longrightarrow> 1 \<le> RepetitionIndex p"
  shows "scanSegments segs c p d \<noteq> Inl IndexOutOfRange"
  using assms by (induction segs arbitrary: c) (auto simp: extractFrom_no_panic)

lemma checkSeparators_no_panic:
  "length separators = 7 \<Longrightarrow> checkSeparators separators fs \<noteq> Inl IndexOutOfRange"
  by (simp add: checkSeparators_def index_at_def)

lemma AbstractHL7_no_panic:
  assumes v: "Validate p = None"
    and nn: "0 \<le> Field p" "0 \<le> RepetitionIndex p" "0 \<le> Component p" "0 \<le> Subcomponent p"
  shows "AbstractHL7 m p \<noteq> Inl IndexOutOfRange"
proof -
  have rep: "Field p \<noteq> 0 \<longrightarrow> 1 \<le> RepetitionIndex p"
    using Validate_repetition [OF v nn(2)] .
  have scan: "scanSegments segs 0 p d \<noteq> Inl IndexOutOfRange" for segs d
    using scanSegments_no_panic [OF nn(1) nn(3) nn(4) rep] .
  have chk: "checkSeparators (take 7 (drop 3 m)) fs \<noteq> Inl IndexOutOfRange"
    if "10 \<le> length m" for fs
    using that by (intro checkSeparators_no_panic) simp
  show ?thesis
    using scan chk
    by (auto simp: AbstractHL7_def v slice_def index_at_def split: sum.splits)
qed

text \<open>
  Claim C9. For every path that \<open>Validate\<close> accepts and whose five integer fields are
  not negative, and for every message, no slice or index expression of \<open>AbstractHL7\<close>
  is out of range: the call returns a string or one of its errors, never the panic.
  Without the hypothesis the call can panic, since \<open>Validate\<close> accepts negative values:
  the path PID-5 with component \<open>-1\<close> is accepted and panics on the message of
  \<^verbatim>\<open>main.go\<close>.
\<close>

theorem AbstractHL7_total_on_nonnegative_paths:
  "(Validate p = None \<and> 0 \<le> SegmentIndex p \<and> 0 \<le> Field p \<and> 0 \<le> RepetitionIndex p
      \<and> 0 \<le> Component p \<and> 0 \<le> Subcomponent p
    \<longrightarrow> AbstractHL7 m p \<noteq> Inl IndexOutOfRange)
   \<and> Validate \<lparr>Segment = ''PID'', SegmentIndex = 1, Field = 5, RepetitionIndex = 1,
        Component = - 1, Subcomponent = 0\<rparr> = None
   \<and> AbstractHL7 main_message \<lparr>Segment = ''PID'', SegmentIndex = 1, Field = 5,
        RepetitionIndex = 1, Component = - 1, Subcomponent = 0\<rparr> = Inl IndexOutOfRange"
proof -
  have neg: "Validate \<lparr>Segment = ''PID'', SegmentIndex = 1, Field = 5, RepetitionIndex = 1,
        Component = - 1, Subcomponent = 0\<rparr> = None"
    "AbstractHL7 main_message \<lparr>Segment = ''PID'', SegmentIndex = 1, Field = 5,
        RepetitionIndex = 1, Component = - 1, Subcomponent = 0\<rparr> = Inl IndexOutOfRange"
    by code_simp+
  show ?thesis
    using AbstractHL7_no_panic [of p m] neg by blast
qed

text \<open>The path PID-6.2 of the README on the message of \<^verbatim>\<open>main.go\<close>.\<close>

theorem AbstractHL7_total_on_nonnegative_paths_witness:
  "Validate \<lparr>Segment = ''PID'', SegmentIndex = 1, Field = 6, RepetitionIndex = 1,
        Component = 2, Subcomponent = 0\<rparr> = None
   \<and> AbstractHL7 main_message \<lparr>Segment = ''PID'', SegmentIndex = 1, Field = 6,
        RepetitionIndex = 1, Component = 2, Subcomponent = 0\<rparr> \<noteq> Inl IndexOutOfRange"
proof -
  have v: "Validate \<lparr>Segment = ''PID'', SegmentIndex = 1, Field = 6, RepetitionIndex = 1,
        Component = 2, Subcomponent = 0\<rparr> = None"
    by (simp add: Validate_def)
  show ?thesis
    using AbstractHL7_total_on_nonnegative_paths
      [of "\<lparr>Segment = ''PID'', SegmentIndex = 1, Field = 6, RepetitionIndex = 1,
        Component = 2, Subcomponent = 0\<rparr>" main_message] v
    by simp
qed

section \<open>Absent data\<close>

lemma extractFrom_absent:
  assumes "0 \<le> Field p" "0 \<le> RepetitionIndex p" "0 \<le> Component p" "0 \<le> Subcomponent p"
    and "Validate p = None"
    and "data_absent segs p d"
    and "1 \<le> SegmentIndex p"
      "SegmentIndex p \<le> int (length (filter (\<lambda>s. HasPrefix s (Segment p)) segs))"
  shows "extractFrom (filter (\<lambda>s. HasPrefix s (Segment p)) segs ! nat (SegmentIndex p - 1)) p d
    = Inr []"
proof -
  let ?seg = "filter (\<lambda>s. HasPrefix s (Segment p)) segs ! nat (SegmentIndex p - 1)"
  obtain fieldList where f: "fieldsOf ?seg p d = Inr fieldList"
    using fieldsOf_no_panic by blast
  have rep: "Field p \<noteq> 0 \<longrightarrow> 1 \<le> RepetitionIndex p"
    using Validate_repetition assms(5) assms(2) by blast
  show ?thesis
    using assms(1,3,4,6,7,8) rep
    by (auto simp: data_absent_def extractFrom_def f index_at_def Let_def split: if_splits)
qed

lemma data_absent_names_segment: "data_absent segs p d \<Longrightarrow> Segment p \<noteq> []"
  by (auto simp: data_absent_def)

lemma AbstractHL7_MSH_field_1:
  assumes "10 \<le> length m" "take 3 m = ''MSH''" "Validate p = None"
    and "Segment p = ''MSH''" "Field p = 1"
  shows "AbstractHL7 m p = Inr (string_of_byte (m ! 3))"
proof -
  have z: "p \<noteq> zero_path"
    using assms(4) by (auto simp: zero_path_def)
  have i0: "index_at (take 7 (drop 3 m)) 0 = Inr (m ! 3)"
    using assms(1) by (simp add: index_at_def)
  show ?thesis
    using assms z by (simp add: AbstractHL7_def slice_def i0)
qed

text \<open>
  Claim C1, as amended. For every message that passes the header structural checks
  (ten bytes, the first three \<^verbatim>\<open>MSH\<close>, and delimiters \<open>d\<close> that pass
  \<open>checkSeparators\<close>) and every path accepted by the validator, its field, repetition
  index, component and subcomponent being non-negative as the data model has them:
  when the addressed data is absent, \<open>AbstractHL7\<close> returns the empty string with no
  error, unless the path addresses MSH field 1; such a path gets the field separator,
  whatever its repetition index, since the shortcut answers it before any list is
  split.
\<close>

theorem absent_data_gives_empty_string:
  assumes hdr: "10 \<le> length m" "take 3 m = ''MSH''"
      "checkSeparators (take 7 (drop 3 m)) (m ! 3) = Inr d"
    and v: "Validate p = None"
    and nn: "0 \<le> Field p" "0 \<le> RepetitionIndex p" "0 \<le> Component p" "0 \<le> Subcomponent p"
    and absent: "data_absent (splitByAnyOf m line_terminators) p d"
  shows "AbstractHL7 m p =
    (if Segment p = ''MSH'' \<and> Field p = 1 then Inr (string_of_byte (m ! 3)) else Inr [])"
proof (cases "Segment p = ''MSH'' \<and> Field p = 1")
  case True
  then show ?thesis
    using AbstractHL7_MSH_field_1 [OF hdr(1,2) v] by simp
next
  case False
  let ?segs = "splitByAnyOf m line_terminators"
  let ?matching = "filter (\<lambda>s. HasPrefix s (Segment p)) ?segs"
  have seg: "Segment p \<noteq> []"
    using data_absent_names_segment [OF absent] .
  have a: "AbstractHL7 m p = scanSegments ?segs 0 p d"
    using AbstractHL7_reaches_scan [OF hdr v seg False] .
  show ?thesis
  proof (cases "1 \<le> SegmentIndex p \<and> SegmentIndex p \<le> int (length ?matching)")
    case out: False
    then show ?thesis
      using a False scanSegments_filter [of ?segs 0 p d] by (auto simp: Let_def)
  next
    case True
    then have "extractFrom (?matching ! nat (SegmentIndex p - 1)) p d = Inr []"
      using extractFrom_absent [OF nn v absent] by blast
    with True False show ?thesis
      using a scanSegments_filter [of ?segs 0 p d] by (auto simp: Let_def)
  qed
qed

text \<open>
  On the message of \<^verbatim>\<open>main.go\<close>, whose PID segment has seven fields and one
  repetition in each, and which has no OBX segment: the paths PID-9, PID-4[2] and OBX-1,
  as \<open>ParsePath\<close> returns them, address absent data.
\<close>

theorem absent_data_gives_empty_string_witness:
  "ParsePath ''PID-9'' = Inr \<lparr>Segment = ''PID'', SegmentIndex = 1, Field = 9,
       RepetitionIndex = 1, Component = 0, Subcomponent = 0\<rparr>
   \<and> AbstractHL7 main_message
      \<lparr>Segment = ''PID'', SegmentIndex = 1, Field = 9, RepetitionIndex = 1,
       Component = 0, Subcomponent = 0\<rparr> = Inr []
   \<and> ParsePath ''PID-4[2]'' = Inr \<lparr>Segment = ''PID'', SegmentIndex = 1, Field = 4,
       RepetitionIndex = 2, Component = 0, Subcomponent = 0\<rparr>
   \<and> AbstractHL7 main_message
      \<lparr>Segment = ''PID'', SegmentIndex = 1, Field = 4, RepetitionIndex = 2,
       Component = 0, Subcomponent = 0\<rparr> = Inr []
   \<and> ParsePath ''OBX-1'' = Inr \<lparr>Segment = ''OBX'', SegmentIndex = 1, Field = 1,
       RepetitionIndex = 1, Component = 0, Subcomponent = 0\<rparr>
   \<and> AbstractHL7 main_message
      \<lparr>Segment = ''OBX'', SegmentIndex = 1, Field = 1, RepetitionIndex = 1,
       Component = 0, Subcomponent = 0\<rparr> = Inr []"
proof -
  let ?pid = "\<lparr>Segment = ''PID'', SegmentIndex = 1, Field = 9, RepetitionIndex = 1,
       Component = 0, Subcomponent = 0\<rparr>"
  let ?rep = "\<lparr>Segment = ''PID'', SegmentIndex = 1, Field = 4, RepetitionIndex = 2,
       Component = 0, Subcomponent = 0\<rparr>"
  let ?obx = "\<lparr>Segment = ''OBX'', SegmentIndex = 1, Field = 1, RepetitionIndex = 1,
       Component = 0, Subcomponent = 0\<rparr>"
  have hdr: "10 \<le> length main_message" "take 3 main_message = ''MSH''"
    "checkSeparators (take 7 (drop 3 main_message)) (main_message ! 3) = Inr standard_delimiters"
    by code_simp+
  have v: "Validate ?pid = None" "Validate ?rep = None" "Validate ?obx = None"
    by (simp_all add: Validate_def)
  have a: "data_absent (splitByAnyOf main_message line_terminators) ?pid standard_delimiters"
    "data_absent (splitByAnyOf main_message line_terminators) ?rep standard_delimiters"
    "data_absent (splitByAnyOf main_message line_terminators) ?obx standard_delimiters"
    by code_simp+
  have p: "ParsePath ''PID-9'' = Inr ?pid" "ParsePath ''PID-4[2]'' = Inr ?rep"
    "ParsePath ''OBX-1'' = Inr ?obx"
    by (simp_all add: parser_defs)
  have r: "AbstractHL7 main_message ?pid = Inr []"
    using absent_data_gives_empty_string [OF hdr v(1) _ _ _ _ a(1)] by simp
  have s: "AbstractHL7 main_message ?rep = Inr []"
    using absent_data_gives_empty_string [OF hdr v(2) _ _ _ _ a(2)] by simp
  have t: "AbstractHL7 main_message ?obx = Inr []"
    using absent_data_gives_empty_string [OF hdr v(3) _ _ _ _ a(3)] by simp
  show ?thesis
    using p r s t by blast
qed

text \<open>
  Claim C1 as stated fails for MSH field 1. The path text \<^verbatim>\<open>MSH.1[2]\<close> parses to a
  path that the validator accepts; the message of \<^verbatim>\<open>main.go\<close> passes the header
  checks; field 1 of its header is the bar, which has one repetition, so the repetition
  index 2 is out of range; and the call returns the bar, not the empty string.
\<close>

theorem MSH_field_1_repetition_counterexample:
  "ParsePath ''MSH.1[2]'' = Inr \<lparr>Segment = ''MSH'', SegmentIndex = 1, Field = 1,
       RepetitionIndex = 2, Component = 0, Subcomponent = 0\<rparr>
   \<and> Validate \<lparr>Segment = ''MSH'', SegmentIndex = 1, Field = 1, RepetitionIndex = 2,
       Component = 0, Subcomponent = 0\<rparr> = None
   \<and> 10 \<le> length main_message \<and> take 3 main_message = ''MSH''
   \<and> checkSeparators (take 7 (drop 3 main_message)) (main_message ! 3) = Inr standard_delimiters
   \<and> data_absent (splitByAnyOf main_message line_terminators)
      \<lparr>Segment = ''MSH'', SegmentIndex = 1, Field = 1, RepetitionIndex = 2,
       Component = 0, Subcomponent = 0\<rparr> standard_delimiters
   \<and> AbstractHL7 main_message
      \<lparr>Segment = ''MSH'', SegmentIndex = 1, Field = 1, RepetitionIndex = 2,
       Component = 0, Subcomponent = 0\<rparr> = Inr ''|''"
  by code_simp

section \<open>The header segment\<close>

lemma header_prefix_fields:
  "\<exists>others. Split (header_prefix @ x) ''|'' =
     ''MSH'' # (''^~'' @ [CHR 0x5C] @ ''&'') # ''HIS'' # ''RIH'' # others"
  by (simp add: Split_def header_prefix_def HasPrefix_Cons_Cons HasPrefix_Nil)

lemma header_prefix_scan:
  assumes "Segment p = ''MSH''" "SegmentIndex p = 1" "Validate p = None" "Field p \<noteq> 1"
  shows "\<exists>x. AbstractHL7 (header_prefix @ rest) p
    = extractFrom (header_prefix @ x) p standard_delimiters"
proof -
  obtain x others where
    segs: "splitByAnyOf (header_prefix @ rest) line_terminators = (header_prefix @ x) # others"
    using first_segment [of header_prefix rest]
    by (auto simp: header_prefix_def CR_def LF_def)
  have z: "p \<noteq> zero_path"
    using assms(1) by (auto simp: zero_path_def)
  have sl: "slice (header_prefix @ rest) 0 3 = Inr ''MSH''"
    "slice (header_prefix @ rest) 3 10 = Inr (''|^~'' @ [CHR 0x5C] @ ''&|H'')"
    by (simp_all add: slice_def header_prefix_def)
  have chk: "checkSeparators (''|^~'' @ [CHR 0x5C] @ ''&|H'') CHR ''|'' = Inr standard_delimiters"
    by (simp add: checkSeparators_def index_at_def standard_delimiters_def)
  have len: "length header_prefix = 17"
    by (simp add: header_prefix_def)
  have pre: "HasPrefix (header_prefix @ x) ''MSH''"
    by (simp add: header_prefix_def HasPrefix_Cons_Cons HasPrefix_Nil)
  have "AbstractHL7 (header_prefix @ rest) p
    = extractFrom (header_prefix @ x) p standard_delimiters"
    unfolding AbstractHL7_def segs
    using assms z pre chk by (simp add: sl len index_at_def)
  then show ?thesis ..
qed

lemma header_prefix_fieldsOf:
  assumes "Segment p = ''MSH''"
  shows "\<exists>others. fieldsOf (header_prefix @ x) p standard_delimiters =
      Inr (''MSH'' # ''|'' # (''^~'' @ [CHR 0x5C] @ ''&'') # ''HIS'' # ''RIH'' # others)"
proof -
  obtain others where sp: "Split (header_prefix @ x) ''|'' =
     ''MSH'' # (''^~'' @ [CHR 0x5C] @ ''&'') # ''HIS'' # ''RIH'' # others"
    using header_prefix_fields by blast
  have sb: "string_of_byte (fieldSeparator standard_delimiters) = ''|''"
    by (simp add: string_of_byte_def standard_delimiters_def)
  have "fieldsOf (header_prefix @ x) p standard_delimiters =
      Inr (''MSH'' # ''|'' # (''^~'' @ [CHR 0x5C] @ ''&'') # ''HIS'' # ''RIH'' # others)"
    using fieldsOf_MSH [of p "header_prefix @ x" standard_delimiters, unfolded sb, OF assms sp]
    by simp
  then show ?thesis ..
qed

lemma header_prefix_field2:
  "extractFrom (header_prefix @ x)
     \<lparr>Segment = ''MSH'', SegmentIndex = 1, Field = 2, RepetitionIndex = 1,
      Component = 0, Subcomponent = 0\<rparr> standard_delimiters = Inr (''^~'' @ [CHR 0x5C] @ ''&'')"
proof -
  obtain others where f: "fieldsOf (header_prefix @ x)
     \<lparr>Segment = ''MSH'', SegmentIndex = 1, Field = 2, RepetitionIndex = 1,
      Component = 0, Subcomponent = 0\<rparr> standard_delimiters =
      Inr (''MSH'' # ''|'' # (''^~'' @ [CHR 0x5C] @ ''&'') # ''HIS'' # ''RIH'' # others)"
    using header_prefix_fieldsOf [of "\<lparr>Segment = ''MSH'', SegmentIndex = 1, Field = 2,
      RepetitionIndex = 1, Component = 0, Subcomponent = 0\<rparr>" x]
    by auto
  show ?thesis
    by (simp add: extractFrom_def f index_at_def repetitionsOf_def)
qed

lemma header_prefix_field3:
  "extractFrom (header_prefix @ x)
     \<lparr>Segment = ''MSH'', SegmentIndex = 1, Field = 3, RepetitionIndex = 1,
      Component = 0, Subcomponent = 0\<rparr> standard_delimiters = Inr ''HIS''"
proof -
  obtain others where f: "fieldsOf (header_prefix @ x)
     \<lparr>Segment = ''MSH'', SegmentIndex = 1, Field = 3, RepetitionIndex = 1,
      Component = 0, Subcomponent = 0\<rparr> standard_delimiters =
      Inr (''MSH'' # ''|'' # (''^~'' @ [CHR 0x5C] @ ''&'') # ''HIS'' # ''RIH'' # others)"
    using header_prefix_fieldsOf [of "\<lparr>Segment = ''MSH'', SegmentIndex = 1, Field = 3,
      RepetitionIndex = 1, Component = 0, Subcomponent = 0\<rparr>" x]
    by auto
  have r: "Split ''HIS'' (string_of_byte (repetitionSeparator standard_delimiters)) = [''HIS'']"
    by (simp add: Split_def string_of_byte_def standard_delimiters_def HasPrefix_Cons_Cons)
  show ?thesis
    by (simp add: extractFrom_def f index_at_def repetitionsOf_def r)
qed

text \<open>
  Claim C4. For every message whose header segment begins \<^verbatim>\<open>MSH|^~\&|HIS|RIH|\<close>,
  whatever follows: the path MSH.1 yields the bar, the field separator itself; the path
  MSH.2 yields the encoding characters \<^verbatim>\<open>^~\&\<close> whole, although they contain the
  repetition separator, so the field is not split into repetitions; and the path MSH.3
  yields \<^verbatim>\<open>HIS\<close>, the field list of MSH having the field separator put in at index 1.
  The last two parts say this of the lists themselves: for a path that names MSH the
  field list of such a segment is MSH, the bar, the encoding characters, HIS, RIH and
  what follows, and for a path to MSH field 2 the repetition list of any field is the
  field alone.
\<close>

theorem MSH_fields_1_2_3:
  "ParsePath ''MSH.1'' = Inr \<lparr>Segment = ''MSH'', SegmentIndex = 1, Field = 1,
       RepetitionIndex = 1, Component = 0, Subcomponent = 0\<rparr>
   \<and> ParsePath ''MSH.2'' = Inr \<lparr>Segment = ''MSH'', SegmentIndex = 1, Field = 2,
       RepetitionIndex = 1, Component = 0, Subcomponent = 0\<rparr>
   \<and> ParsePath ''MSH.3'' = Inr \<lparr>Segment = ''MSH'', SegmentIndex = 1, Field = 3,
       RepetitionIndex = 1, Component = 0, Subcomponent = 0\<rparr>
   \<and> AbstractHL7 (header_prefix @ rest) \<lparr>Segment = ''MSH'', SegmentIndex = 1, Field = 1,
       RepetitionIndex = 1, Component = 0, Subcomponent = 0\<rparr> = Inr ''|''
   \<and> AbstractHL7 (header_prefix @ rest) \<lparr>Segment = ''MSH'', SegmentIndex = 1, Field = 2,
       RepetitionIndex = 1, Component = 0, Subcomponent = 0\<rparr> = Inr (''^~'' @ [CHR 0x5C] @ ''&'')
   \<and> AbstractHL7 (header_prefix @ rest) \<lparr>Segment = ''MSH'', SegmentIndex = 1, Field = 3,
       RepetitionIndex = 1, Component = 0, Subcomponent = 0\<rparr> = Inr ''HIS''
   \<and> (\<exists>others. fieldsOf (header_prefix @ x) (p\<lparr>Segment := ''MSH''\<rparr>) standard_delimiters =
        Inr (''MSH'' # ''|'' # (''^~'' @ [CHR 0x5C] @ ''&'') # ''HIS'' # ''RIH'' # others))
   \<and> repetitionsOf field (p\<lparr>Segment := ''MSH'', Field := 2\<rparr>) d = [field]"
proof -
  have g: "\<exists>others. fieldsOf (header_prefix @ x) (p\<lparr>Segment := ''MSH''\<rparr>) standard_delimiters =
        Inr (''MSH'' # ''|'' # (''^~'' @ [CHR 0x5C] @ ''&'') # ''HIS'' # ''RIH'' # others)"
    using header_prefix_fieldsOf [of "p\<lparr>Segment := ''MSH''\<rparr>" x] by simp
  have h: "repetitionsOf field (p\<lparr>Segment := ''MSH'', Field := 2\<rparr>) d = [field]"
    by (simp add: repetitionsOf_def)
  have p: "ParsePath ''MSH.1'' = Inr \<lparr>Segment = ''MSH'', SegmentIndex = 1, Field = 1,
       RepetitionIndex = 1, Component = 0, Subcomponent = 0\<rparr>"
    "ParsePath ''MSH.2'' = Inr \<lparr>Segment = ''MSH'', SegmentIndex = 1, Field = 2,
       RepetitionIndex = 1, Component = 0, Subcomponent = 0\<rparr>"
    "ParsePath ''MSH.3'' = Inr \<lparr>Segment = ''MSH'', SegmentIndex = 1, Field = 3,
       RepetitionIndex = 1, Component = 0, Subcomponent = 0\<rparr>"
    by (simp_all add: parser_defs)
  have f1: "AbstractHL7 (header_prefix @ rest) \<lparr>Segment = ''MSH'', SegmentIndex = 1, Field = 1,
       RepetitionIndex = 1, Component = 0, Subcomponent = 0\<rparr> = Inr ''|''"
    by (simp add: AbstractHL7_def Validate_def zero_path_def slice_def index_at_def
        header_prefix_def string_of_byte_def)
  have f2: "AbstractHL7 (header_prefix @ rest) \<lparr>Segment = ''MSH'', SegmentIndex = 1, Field = 2,
       RepetitionIndex = 1, Component = 0, Subcomponent = 0\<rparr> = Inr (''^~'' @ [CHR 0x5C] @ ''&'')"
    using header_prefix_scan [of "\<lparr>Segment = ''MSH'', SegmentIndex = 1, Field = 2,
       RepetitionIndex = 1, Component = 0, Subcomponent = 0\<rparr>" rest]
    by (auto simp: Validate_def header_prefix_field2)
  have f3: "AbstractHL7 (header_prefix @ rest) \<lparr>Segment = ''MSH'', SegmentIndex = 1, Field = 3,
       RepetitionIndex = 1, Component = 0, Subcomponent = 0\<rparr> = Inr ''HIS''"
    using header_prefix_scan [of "\<lparr>Segment = ''MSH'', SegmentIndex = 1, Field = 3,
       RepetitionIndex = 1, Component = 0, Subcomponent = 0\<rparr>" rest]
    by (auto simp: Validate_def header_prefix_field3)
  show ?thesis
    using p f1 f2 f3 g h by simp
qed

section \<open>Line terminators\<close>

text \<open>
  Claim C3 does not hold of the code. The carriage return is replaced by CR LF and
  then the line feed, the new ones included, by CR LF again, so a carriage return
  becomes CR CR LF and a CR LF becomes CR CR LF CR LF: segments joined by a carriage
  return keep it at their end, segments joined by a line feed do not, and segments
  joined by CR LF keep it and have an empty segment between them. The three segments
  \<^verbatim>\<open>MSH|^~\&|A\<close>, \<^verbatim>\<open>PID|1\<close>, \<^verbatim>\<open>OBX|2\<close> give three different segment lists, and the path
  PID-1 yields \<^verbatim>\<open>1\<close> with a carriage return after it for two of the terminators and
  \<^verbatim>\<open>1\<close> for the line feed.
\<close>

theorem segmentation_depends_on_terminator:
  "splitByAnyOf (''MSH|^~'' @ [CHR 0x5C] @ ''&|A'' @ [CR] @ ''PID|1'' @ [CR] @ ''OBX|2'')
      line_terminators
     = [''MSH|^~'' @ [CHR 0x5C] @ ''&|A'' @ [CR], ''PID|1'' @ [CR], ''OBX|2'']
   \<and> splitByAnyOf (''MSH|^~'' @ [CHR 0x5C] @ ''&|A'' @ [LF] @ ''PID|1'' @ [LF] @ ''OBX|2'')
      line_terminators
     = [''MSH|^~'' @ [CHR 0x5C] @ ''&|A'', ''PID|1'', ''OBX|2'']
   \<and> splitByAnyOf
      (''MSH|^~'' @ [CHR 0x5C] @ ''&|A'' @ [CR, LF] @ ''PID|1'' @ [CR, LF] @ ''OBX|2'')
      line_terminators
     = [''MSH|^~'' @ [CHR 0x5C] @ ''&|A'' @ [CR], [], ''PID|1'' @ [CR], [], ''OBX|2'']
   \<and> AbstractHL7 (''MSH|^~'' @ [CHR 0x5C] @ ''&|A'' @ [CR] @ ''PID|1'' @ [CR] @ ''OBX|2'')
      \<lparr>Segment = ''PID'', SegmentIndex = 1, Field = 1, RepetitionIndex = 1,
       Component = 0, Subcomponent = 0\<rparr> = Inr (''1'' @ [CR])
   \<and> AbstractHL7 (''MSH|^~'' @ [CHR 0x5C] @ ''&|A'' @ [LF] @ ''PID|1'' @ [LF] @ ''OBX|2'')
      \<lparr>Segment = ''PID'', SegmentIndex = 1, Field = 1, RepetitionIndex = 1,
       Component = 0, Subcomponent = 0\<rparr> = Inr ''1''
   \<and> AbstractHL7
      (''MSH|^~'' @ [CHR 0x5C] @ ''&|A'' @ [CR, LF] @ ''PID|1'' @ [CR, LF] @ ''OBX|2'')
      \<lparr>Segment = ''PID'', SegmentIndex = 1, Field = 1, RepetitionIndex = 1,
       Component = 0, Subcomponent = 0\<rparr> = Inr (''1'' @ [CR])"
  by code_simp

end
